theory Spec2Isabelle
  imports Complex_Main
begin

section \<open>The UMD2 backend (\<open>umd2.py\<close>): data model\<close>

text \<open>
  Python floats are modelled by \<^typ>\<open>real\<close> (exact arithmetic: no rounding, no infinities,
  no NaN) and Python integers by \<^typ>\<open>int\<close>. Input lines are ASCII strings; a character
  outside ASCII is neither white space, nor a digit, nor a word character here.
  The numeric transform of a spectral snapshot (Hann window, real FFT) is not computed: a
  snapshot carries the window of buffered values the transform is applied to.
\<close>

datatype error = NameError string | ZeroDivisionError | ValueError

datatype pyval = PInt int | PFloat real

datatype emit_mode = Every | OnStep
datatype comp_mode = Displacement | Angle
datatype fft_sig = SigX | SigV
datatype out_fmt = Jsonl | Csv

record args =
  fs :: real
  emit :: emit_mode
  decimate :: int
  stepnm :: "real option"
  lambda_nm :: real
  scale_div :: int
  startnm :: real
  straight_mult :: real
  mode :: comp_mode
  angle_norm_nm :: real
  angle_corr :: real
  ema_alpha :: real
  ma_window :: int
  env_temp :: "real option"
  env_temp0 :: "real option"
  env_ktemp :: real
  env_press :: "real option"
  env_press0 :: "real option"
  env_kpress :: real
  env_hum :: "real option"
  env_hum0 :: "real option"
  env_khum :: real
  fft_len :: int
  fft_every :: int
  fft_signal :: fft_sig
  enable_xy :: bool
  out :: out_fmt
  log_path :: "string option"

text \<open>The local variables of \<open>main\<close> that live across iterations of the line loop.\<close>

record state =
  fs_hz :: real
  x_nm :: real
  prevD :: "int option"
  ema_x :: "real option"
  ma_buf :: "real list"
  ma_maxlen :: nat
  fft_buf :: "real list"
  emitted :: int

text \<open>The dictionary \<open>rec\<close> built for every kept sample.\<close>

record rec =
  rec_seq :: int
  rec_fs_hz :: real
  rec_D :: int
  rec_deltaD :: int
  rec_step_nm :: real
  rec_x_nm :: real
  rec_v_nm_s :: real
  rec_x_nm_ema :: "real option"
  rec_x_nm_ma :: "real option"
  rec_x_nm_env :: real
  rec_angle_deg :: "real option"
  rec_x2 :: "real option"
  rec_y2 :: "real option"

text \<open>
  What one run writes: a line of standard output (a record as JSON or as a CSV row, the CSV
  header, an FFT snapshot) or a row of the CSV log. A snapshot holds the signal name, the
  sampling frequency, the sample spacing given to \<open>rfftfreq\<close> and the window of values.
\<close>

datatype event =
    StdoutJson rec
  | StdoutCsvRow rec
  | StdoutCsvHeader
  | LogHeader
  | LogRow rec
  | StdoutFft fft_sig real real "real list"

section \<open>Characters and numbers\<close>

definition is_space :: "char \<Rightarrow> bool" where
  "is_space c = (c \<in> set [CHR 0x09, CHR 0x0A, CHR 0x0B, CHR 0x0C, CHR 0x0D,
                            CHR 0x1C, CHR 0x1D, CHR 0x1E, CHR 0x1F, CHR '' ''])"

definition is_digit :: "char \<Rightarrow> bool" where
  "is_digit c = (c \<in> set ''0123456789'')"

definition is_alpha :: "char \<Rightarrow> bool" where
  "is_alpha c = (c \<in> set ''abcdefghijklmnopqrstuvwxyzABCDEFGHIJKLMNOPQRSTUVWXYZ'')"

definition is_word :: "char \<Rightarrow> bool" where
  "is_word c = (is_alpha c \<or> is_digit c \<or> c = CHR ''_'')"

definition upper_char :: "char \<Rightarrow> char" where
  "upper_char c =
     (case map_of (zip ''abcdefghijklmnopqrstuvwxyz'' ''ABCDEFGHIJKLMNOPQRSTUVWXYZ'') c of
        Some u \<Rightarrow> u
      | None \<Rightarrow> c)"

definition upper :: "string \<Rightarrow> string" where
  "upper s = map upper_char s"

definition digit_val :: "char \<Rightarrow> nat" where
  "digit_val c = of_char c - 48"

definition digits_val :: "string \<Rightarrow> nat" where
  "digits_val ds = foldl (\<lambda>acc c. 10 * acc + digit_val c) 0 ds"

text \<open>\<open>str.strip()\<close>: white space removed at both ends.\<close>

definition strip :: "string \<Rightarrow> string" where
  "strip s = rev (dropWhile is_space (rev (dropWhile is_space s)))"

text \<open>
  The text of a number matched by \<open>-?\d+(?:\.\d+)?\<close>, split into its parts: the sign, the
  integer digits and the fraction digits (absent when the text has no decimal point).
\<close>

record numtext =
  nt_neg :: bool
  nt_int :: string
  nt_frac :: "string option"

definition numtext_abs :: "numtext \<Rightarrow> real" where
  "numtext_abs t =
     (case nt_frac t of
        None \<Rightarrow> real (digits_val (nt_int t))
      | Some fr \<Rightarrow> real (digits_val (nt_int t)) + real (digits_val fr) / 10 ^ length fr)"

text \<open>\<open>float(val) if '.' in val else int(val)\<close>\<close>

definition convert_val :: "numtext \<Rightarrow> pyval" where
  "convert_val t =
     (case nt_frac t of
        Some fr \<Rightarrow> PFloat (if nt_neg t then - numtext_abs t else numtext_abs t)
      | None \<Rightarrow> PInt (if nt_neg t then - int (digits_val (nt_int t)) else int (digits_val (nt_int t))))"

text \<open>\<open>int(v)\<close> truncates a float toward zero; \<open>float(v)\<close> embeds an integer.\<close>

definition py_int :: "pyval \<Rightarrow> int" where
  "py_int v = (case v of PInt i \<Rightarrow> i | PFloat r \<Rightarrow> (if r < 0 then \<lceil>r\<rceil> else \<lfloor>r\<rfloor>))"

definition py_float :: "pyval \<Rightarrow> real" where
  "py_float v = (case v of PInt i \<Rightarrow> real_of_int i | PFloat r \<Rightarrow> r)"

section \<open>The two regular expressions\<close>

text \<open>
  \<open>Tok_RE = ([A-Za-z]+)\s*:\s*(-?\d+(?:\.\d+)?)\b\<close>, tried at the head of the string.
  The last character matched is a digit, so the final \<open>\b\<close> holds iff the next character
  is not a word character. The fraction is given up when \<open>\b\<close> fails after it
  (backtracking), and no shorter run of letters, spaces or digits can match where the
  longest one fails. The result is the key, the number and the rest of the string.
\<close>

definition at_boundary :: "string \<Rightarrow> bool" where
  "at_boundary s = (case s of [] \<Rightarrow> True | c # _ \<Rightarrow> \<not> is_word c)"

definition match_digits :: "bool \<Rightarrow> string \<Rightarrow> (numtext \<times> string) option" where
  "match_digits neg s1 =
     (let ds = takeWhile is_digit s1;
          s2 = dropWhile is_digit s1
      in if ds = [] then None
         else
           (let whole = (if at_boundary s2
                         then Some (\<lparr>nt_neg = neg, nt_int = ds, nt_frac = None\<rparr>, s2)
                         else None)
            in case s2 of
                 c # r \<Rightarrow>
                   if c = CHR ''.'' \<and> takeWhile is_digit r \<noteq> [] \<and> at_boundary (dropWhile is_digit r)
                   then Some (\<lparr>nt_neg = neg, nt_int = ds, nt_frac = Some (takeWhile is_digit r)\<rparr>,
                              dropWhile is_digit r)
                   else whole
               | [] \<Rightarrow> whole))"

text \<open>The optional sign \<open>-?\<close>, then the digits.\<close>

definition match_number :: "string \<Rightarrow> (numtext \<times> string) option" where
  "match_number s =
     (case s of
        c # r \<Rightarrow> if c = CHR ''-'' then match_digits True r else match_digits False s
      | [] \<Rightarrow> match_digits False s)"

definition match_tok :: "string \<Rightarrow> (string \<times> numtext \<times> string) option" where
  "match_tok s =
     (let key = takeWhile is_alpha s;
          s1 = dropWhile is_space (dropWhile is_alpha s)
      in if key = [] then None
         else case s1 of
                c # r \<Rightarrow>
                  if c = CHR '':''
                  then (case match_number (dropWhile is_space r) of
                          Some (t, rest) \<Rightarrow> Some (key, t, rest)
                        | None \<Rightarrow> None)
                  else None
              | [] \<Rightarrow> None)"

text \<open>
  \<open>Tok_RE.findall(line)\<close>: the matches from left to right, each search resuming where the last
  match ended and moving one character on where none starts. The fuel bounds the number of
  positions tried; \<open>length line + 1\<close> is enough, since every step consumes a character
  (lemmas \<open>findall_from_fuel\<close> and \<open>findall_Cons\<close> below).
\<close>

fun findall_from :: "nat \<Rightarrow> string \<Rightarrow> (string \<times> numtext) list" where
  "findall_from 0 s = []"
| "findall_from (Suc n) [] = []"
| "findall_from (Suc n) (c # cs) =
     (case match_tok (c # cs) of
        Some (key, t, rest) \<Rightarrow> (key, t) # findall_from n rest
      | None \<Rightarrow> findall_from n cs)"

definition findall :: "string \<Rightarrow> (string \<times> numtext) list" where
  "findall line = findall_from (Suc (length line)) line"

text \<open>\<open>parse_line_tokens\<close>: a later token of the same key replaces an earlier one.\<close>

definition parse_line_tokens :: "string \<Rightarrow> (string \<rightharpoonup> pyval)" where
  "parse_line_tokens line =
     foldl (\<lambda>out (key, t). out(upper key \<mapsto> convert_val t)) Map.empty (findall line)"

text \<open>
  \<open>HeaderFS_RE = ^\s*Sample\s+Frequency\s*=\s*([0-9]+(?:\.[0-9]+)?)\s*Hz\s*$\<close> with
  \<open>re.IGNORECASE\<close>, matched at the start of the line.
\<close>

definition skip_word :: "string \<Rightarrow> string \<Rightarrow> string option" where
  "skip_word w s =
     (if upper (take (length w) s) = upper w \<and> length w \<le> length s
      then Some (drop (length w) s) else None)"

definition match_header :: "string \<Rightarrow> numtext option" where
  "match_header line =
     (case skip_word ''Sample'' (dropWhile is_space line) of
        None \<Rightarrow> None
      | Some s1 \<Rightarrow>
          if takeWhile is_space s1 = [] then None
          else
            (case skip_word ''Frequency'' (dropWhile is_space s1) of
               None \<Rightarrow> None
             | Some s2 \<Rightarrow>
                 (case dropWhile is_space s2 of
                    [] \<Rightarrow> None
                  | c # s3 \<Rightarrow>
                      if c \<noteq> CHR ''='' then None
                      else
                        (let s4 = dropWhile is_space s3;
                             ds = takeWhile is_digit s4;
                             s5 = dropWhile is_digit s4;
                             (fr, s6) =
                               (case s5 of
                                  d # r \<Rightarrow>
                                    if d = CHR ''.'' \<and> takeWhile is_digit r \<noteq> []
                                    then (Some (takeWhile is_digit r), dropWhile is_digit r)
                                    else (None, s5)
                                | [] \<Rightarrow> (None, s5))
                         in if ds = [] then None
                            else
                              (case skip_word ''Hz'' (dropWhile is_space s6) of
                                 None \<Rightarrow> None
                               | Some s7 \<Rightarrow>
                                   if dropWhile is_space s7 = []
                                   then Some \<lparr>nt_neg = False, nt_int = ds, nt_frac = fr\<rparr>
                                   else None)))))"

text \<open>\<open>maybe_extract_fs\<close>: \<open>float(m.group(1))\<close> of a matching line, else \<open>None\<close>.\<close>

definition maybe_extract_fs :: "string \<Rightarrow> real option" where
  "maybe_extract_fs line = map_option numtext_abs (match_header line)"

section \<open>Pure helpers\<close>

definition clamp :: "real \<Rightarrow> real \<Rightarrow> real \<Rightarrow> real" where
  "clamp val lo hi = (if val < lo then lo else if val > hi then hi else val)"

text \<open>\<open>compute_step_nm\<close>: the divisor is \<open>max(1, int(args.scale_div))\<close>, never zero.\<close>

definition compute_step_nm :: "args \<Rightarrow> real" where
  "compute_step_nm a =
     (case stepnm a of
        Some st \<Rightarrow> st
      | None \<Rightarrow> lambda_nm a / real_of_int (max 1 (scale_div a)))"

definition env_factor :: "real option \<Rightarrow> real option \<Rightarrow> real \<Rightarrow> real" where
  "env_factor cur ref k =
     (case (cur, ref) of
        (Some c, Some r) \<Rightarrow> if k \<noteq> 0 then 1 + k * (c - r) else 1
      | _ \<Rightarrow> 1)"

definition apply_env :: "real \<Rightarrow> args \<Rightarrow> real" where
  "apply_env x a =
     x * (((1 * env_factor (env_temp a) (env_temp0 a) (env_ktemp a))
              * env_factor (env_press a) (env_press0 a) (env_kpress a))
              * env_factor (env_hum a) (env_hum0 a) (env_khum a))"

text \<open>Python's \<open>/\<close> and \<open>math.asin\<close> raise where HOL's total functions return a value.\<close>

definition py_truediv :: "real \<Rightarrow> real \<Rightarrow> error + real" where
  "py_truediv x y = (if y = 0 then Inl ZeroDivisionError else Inr (x / y))"

definition py_asin :: "real \<Rightarrow> error + real" where
  "py_asin x = (if x < -1 \<or> 1 < x then Inl ValueError else Inr (arcsin x))"

definition angle_from_displacement :: "real \<Rightarrow> args \<Rightarrow> error + real" where
  "angle_from_displacement x a =
     (if angle_norm_nm a = 0 then Inr 0
      else case py_truediv x (angle_norm_nm a) of
             Inl e \<Rightarrow> Inl e
           | Inr q \<Rightarrow>
               (case py_asin (clamp q (-1) 1) of
                  Inl e \<Rightarrow> Inl e
                | Inr t \<Rightarrow> Inr (t * angle_corr a * (57296 / 1000))))"

text \<open>\<open>collections.deque\<close> with a \<open>maxlen\<close>: construction keeps the newest items, \<open>append\<close>
  evicts the oldest item of a full deque.\<close>

definition deque_of :: "real list \<Rightarrow> nat \<Rightarrow> real list" where
  "deque_of xs maxlen = drop (length xs - maxlen) xs"

definition deque_append :: "real list \<Rightarrow> nat \<Rightarrow> real \<Rightarrow> real list" where
  "deque_append xs maxlen x =
     (if maxlen = 0 then xs
      else if length xs \<ge> maxlen then drop (Suc (length xs - maxlen)) xs @ [x]
      else xs @ [x])"

section \<open>The line loop of \<open>main\<close>\<close>

text \<open>What the run found at start-up: whether \<open>import numpy\<close> succeeds, and whether a log
  writer was opened.\<close>

record runtime =
  numpy_ok :: bool
  log_writer :: bool

definition init_state :: "args \<Rightarrow> state" where
  "init_state a =
     \<lparr>fs_hz = (if fs a > 0 then fs a else 0),
      x_nm = startnm a,
      prevD = None,
      ema_x = None,
      ma_buf = [],
      ma_maxlen = (if ma_window a > 0 then nat (ma_window a) else 1),
      fft_buf = [],
      emitted = 0\<rparr>"

text \<open>\<open>DIFF\<close> takes precedence, else \<open>D\<close>; \<open>None\<close> when the line has neither.\<close>

definition primary_count :: "(string \<rightharpoonup> pyval) \<Rightarrow> int option" where
  "primary_count toks =
     (case toks ''DIFF'' of
        Some v \<Rightarrow> Some (py_int v)
      | None \<Rightarrow> (case toks ''D'' of Some v \<Rightarrow> Some (py_int v) | None \<Rightarrow> None))"

definition second_channel :: "args \<Rightarrow> (string \<rightharpoonup> pyval) \<Rightarrow> string \<Rightarrow> real option" where
  "second_channel a toks k =
     (case toks k of Some v \<Rightarrow> if enable_xy a then Some (py_float v) else None | None \<Rightarrow> None)"

text \<open>The exponential and the moving average, as the two \<open>if\<close> blocks of the loop.\<close>

definition ema_step :: "args \<Rightarrow> real option \<Rightarrow> real \<Rightarrow> real option \<times> real option" where
  "ema_step a em x =
     (if ema_alpha a > 0
      then (let e = (case em of None \<Rightarrow> x
                              | Some old \<Rightarrow> ema_alpha a * x + (1 - ema_alpha a) * old)
            in (Some e, Some e))
      else (em, None))"

definition ma_step ::
  "args \<Rightarrow> real list \<Rightarrow> nat \<Rightarrow> real \<Rightarrow> error + (real list \<times> nat \<times> real option)" where
  "ma_step a buf maxlen x =
     (if ma_window a > 0
      then (let (b1, m1) = (if int maxlen \<noteq> ma_window a
                            then (deque_of buf (nat (ma_window a)), nat (ma_window a))
                            else (buf, maxlen));
                b2 = deque_append b1 m1 x
            in case py_truediv (sum_list b2) (real (length b2)) of
                 Inl e \<Rightarrow> Inl e
               | Inr m \<Rightarrow> Inr (b2, m1, Some m))
      else Inr (buf, maxlen, None))"

text \<open>
  From the primary count to the values of the record: the frequency default, the count
  delta, the displacement recurrence, the velocity, the smoothing, the environmental
  compensation and the angle. The state returned has every update made before the
  emission filter.
\<close>

definition compute_sample ::
  "args \<Rightarrow> state \<Rightarrow> (string \<rightharpoonup> pyval) \<Rightarrow> int \<Rightarrow> error + (state \<times> rec)" where
  "compute_sample a s toks D =
     (let N = (case toks ''N'' of Some v \<Rightarrow> py_int v | None \<Rightarrow> 0);
          x2 = second_channel a toks ''X'';
          y2 = second_channel a toks ''Y'';
          f = (if fs_hz s \<le> 0 then 1000 else fs_hz s);
          dD = (case prevD s of None \<Rightarrow> 0 | Some p \<Rightarrow> D - p);
          dx = compute_step_nm a * real_of_int dD;
          x = (x_nm s + dx) * straight_mult a;
          v = dx * f;
          (em, x_ema) = ema_step a (ema_x s) x
      in case ma_step a (ma_buf s) (ma_maxlen s) x of
           Inl e \<Rightarrow> Inl e
         | Inr (mb, mm, x_ma) \<Rightarrow>
             (let x_env = apply_env x a
              in case (if mode a = Angle then map_sum id Some (angle_from_displacement x a)
                       else Inr None) of
                   Inl e \<Rightarrow> Inl e
                 | Inr ang \<Rightarrow>
                     Inr (s\<lparr>fs_hz := f, x_nm := x, prevD := Some D, ema_x := em,
                            ma_buf := mb, ma_maxlen := mm\<rparr>,
                          \<lparr>rec_seq = N, rec_fs_hz = f, rec_D = D, rec_deltaD = dD,
                           rec_step_nm = dx, rec_x_nm = x, rec_v_nm_s = v,
                           rec_x_nm_ema = x_ema, rec_x_nm_ma = x_ma, rec_x_nm_env = x_env,
                           rec_angle_deg = ang, rec_x2 = x2, rec_y2 = y2\<rparr>)))"

text \<open>The emission filter: the mode gate, the counter, the decimation gate.\<close>

definition mode_gate :: "args \<Rightarrow> rec \<Rightarrow> bool" where
  "mode_gate a r = (if emit a = OnStep then rec_deltaD r \<noteq> 0 else True)"

definition decimation_gate :: "args \<Rightarrow> int \<Rightarrow> bool" where
  "decimation_gate a cnt = (\<not> (decimate a > 1 \<and> cnt mod decimate a \<noteq> 0))"

text \<open>The block \<open># FFT snapshots\<close>, reached by kept samples only.\<close>

definition fft_step :: "args \<Rightarrow> runtime \<Rightarrow> state \<Rightarrow> rec \<Rightarrow> state \<times> event list" where
  "fft_step a rt s r =
     (if fft_len a > 0 \<and> fft_every a > 0
      then (if numpy_ok rt \<and> emitted s mod fft_every a = 0
            then (let sigval = (if fft_signal a = SigX then rec_x_nm r else rec_v_nm_s r);
                      fb = fft_buf s @ [sigval]
                  in (s\<lparr>fft_buf := fb\<rparr>,
                      if int (length fb) \<ge> fft_len a
                      then [StdoutFft (fft_signal a) (fs_hz s)
                              (if fs_hz s > 0 then 1 / fs_hz s else 1 / 1000)
                              (drop (length fb - nat (fft_len a)) fb)]
                      else []))
            else (s, []))
      else (s, []))"

definition emit_sample :: "args \<Rightarrow> runtime \<Rightarrow> state \<Rightarrow> rec \<Rightarrow> state \<times> event list" where
  "emit_sample a rt s r =
     (if mode_gate a r
      then (let s1 = s\<lparr>emitted := emitted s + 1\<rparr>
            in if decimation_gate a (emitted s1)
               then (let (s2, snap) = fft_step a rt s1 r
                     in (s2, [if out a = Jsonl then StdoutJson r else StdoutCsvRow r]
                             @ (if log_writer rt then [LogRow r] else [])
                             @ snap))
               else (s1, []))
      else (s, []))"

text \<open>One iteration of \<open>for raw in source\<close>.\<close>

definition process_line ::
  "args \<Rightarrow> runtime \<Rightarrow> state \<Rightarrow> string \<Rightarrow> error + (state \<times> event list)" where
  "process_line a rt s raw =
     (let line = strip raw
      in if line = [] then Inr (s, [])
         else
           (let fs_found = maybe_extract_fs line
            in if fs_found \<noteq> None \<and> fs_found \<noteq> Some 0
               then Inr (s\<lparr>fs_hz := the fs_found\<rparr>, [])
               else
                 (let toks = parse_line_tokens line
                  in case primary_count toks of
                       None \<Rightarrow> Inr (s, [])
                     | Some D \<Rightarrow>
                         (case compute_sample a s toks D of
                            Inl e \<Rightarrow> Inl e
                          | Inr (s1, r) \<Rightarrow> Inr (emit_sample a rt s1 r)))))"

fun run_lines ::
  "args \<Rightarrow> runtime \<Rightarrow> state \<Rightarrow> string list \<Rightarrow> error + (state \<times> event list)" where
  "run_lines a rt s [] = Inr (s, [])"
| "run_lines a rt s (raw # rest) =
     (case process_line a rt s raw of
        Inl e \<Rightarrow> Inl e
      | Inr (s1, ev1) \<Rightarrow>
          (case run_lines a rt s1 rest of
             Inl e \<Rightarrow> Inl e
           | Inr (s2, ev2) \<Rightarrow> Inr (s2, ev1 @ ev2)))"

section \<open>Start-up of \<open>main\<close>\<close>

text \<open>
  The names bound in the module's global namespace when \<open>main\<close> runs: the imports of lines
  36 to 43, the two compiled patterns and the functions. A name that is neither here nor a
  builtin raises \<open>NameError\<close> where it is evaluated.
\<close>

definition module_globals :: "string list" where
  "module_globals =
     [''sys'', ''re'', ''argparse'', ''json'', ''csv'', ''math'', ''deque'',
      ''Optional'', ''Tuple'', ''Iterator'', ''List'', ''HeaderFS_RE'', ''Tok_RE'',
      ''parse_args'', ''iter_lines_serial'', ''iter_lines_file'', ''iter_lines_stdin'',
      ''parse_line_tokens'', ''maybe_extract_fs'', ''clamp'', ''compute_step_nm'',
      ''apply_env'', ''angle_from_displacement'', ''main'']"

definition lookup_global :: "string \<Rightarrow> error + unit" where
  "lookup_global name = (if name \<in> set module_globals then Inr () else Inl (NameError name))"

text \<open>
  The block \<open># Logging\<close>: with a non-empty \<open>--log\<close> path, \<open>os.path.exists\<close> is evaluated
  first; then the file is opened for appending and the header row written when the path did
  not exist. \<open>files\<close> are the paths that exist. The result tells whether a log writer is open
  and what was written to the log.
\<close>

definition setup_log :: "args \<Rightarrow> string list \<Rightarrow> error + (bool \<times> event list)" where
  "setup_log a files =
     (case log_path a of
        None \<Rightarrow> Inr (False, [])
      | Some p \<Rightarrow>
          if p = [] then Inr (False, [])
          else
            (case lookup_global ''os'' of
               Inl e \<Rightarrow> Inl e
             | Inr u \<Rightarrow>
                 (let log_exists = (p \<in> set files)
                  in Inr (True, if \<not> log_exists then [LogHeader] else []))))"

definition main :: "args \<Rightarrow> bool \<Rightarrow> string list \<Rightarrow> string list \<Rightarrow> error + event list" where
  "main a np files source =
     (case setup_log a files of
        Inl e \<Rightarrow> Inl e
      | Inr (lw, ev0) \<Rightarrow>
          (let ev1 = (if out a = Csv then [StdoutCsvHeader] else [])
           in case run_lines a \<lparr>numpy_ok = np, log_writer = lw\<rparr> (init_state a) source of
                Inl e \<Rightarrow> Inl e
              | Inr (s, ev) \<Rightarrow> Inr (ev0 @ ev1 @ ev)))"

section \<open>Notions used to state the properties\<close>

text \<open>
  The primary count the loop extracts from a raw line: \<open>None\<close> for a blank line, for a header
  line that the loop takes (\<open>if fs_found\<close>) and for a line with neither \<open>DIFF\<close> nor \<open>D\<close>.
\<close>

definition sample_count :: "string \<Rightarrow> int option" where
  "sample_count raw =
     (let line = strip raw
      in if line = [] then None
         else if maybe_extract_fs line \<noteq> None \<and> maybe_extract_fs line \<noteq> Some 0 then None
         else primary_count (parse_line_tokens line))"

text \<open>The records written to standard output, in order.\<close>

fun records :: "event list \<Rightarrow> rec list" where
  "records [] = []"
| "records (StdoutJson r # evs) = r # records evs"
| "records (StdoutCsvRow r # evs) = r # records evs"
| "records (e # evs) = records evs"

text \<open>
  The cumulative displacement computed at each processed sample of a run, in order.
\<close>

fun x_trace :: "args \<Rightarrow> runtime \<Rightarrow> state \<Rightarrow> string list \<Rightarrow> real list" where
  "x_trace a rt s [] = []"
| "x_trace a rt s (raw # rest) =
     (case process_line a rt s raw of
        Inl e \<Rightarrow> []
      | Inr (s1, ev) \<Rightarrow>
          (if sample_count raw = None then [] else [x_nm s1]) @ x_trace a rt s1 rest)"

text \<open>The defaults of \<open>parse_args\<close>.\<close>

definition default_args :: args where
  "default_args =
     \<lparr>fs = 0, emit = Every, decimate = 1, stepnm = None, lambda_nm = 632991 / 1000,
      scale_div = 8, startnm = 0, straight_mult = 1, mode = Displacement,
      angle_norm_nm = 1, angle_corr = 1, ema_alpha = 0, ma_window = 0,
      env_temp = None, env_temp0 = None, env_ktemp = 0,
      env_press = None, env_press0 = None, env_kpress = 0,
      env_hum = None, env_hum0 = None, env_khum = 0,
      fft_len = 0, fft_every = 0, fft_signal = SigX, enable_xy = False,
      out = Jsonl, log_path = None\<rparr>"

definition default_runtime :: runtime where
  "default_runtime = \<lparr>numpy_ok = True, log_writer = False\<rparr>"

text \<open>On-step emission with decimation factor 3.\<close>

definition onstep3 :: args where
  "onstep3 = default_args\<lparr>emit := OnStep, decimate := 3\<rparr>"

text \<open>Window 3 over the displacements 2, 4, 6, 8 (one nanometre per count, baseline 2).\<close>

definition ma3 :: args where
  "ma3 = default_args\<lparr>stepnm := Some 1, startnm := 2, ma_window := 3\<rparr>"

text \<open>Spectral analysis enabled: window length 2, trigger interval 2.\<close>

definition fft22 :: args where
  "fft22 = default_args\<lparr>fft_len := 2, fft_every := 2\<rparr>"

section \<open>Evaluation and totality lemmas\<close>

lemmas tok_defs =
  primary_count_def parse_line_tokens_def findall_def match_tok_def match_number_def match_digits_def
  is_alpha_def is_space_def is_digit_def is_word_def at_boundary_def upper_def upper_char_def
  convert_val_def numtext_abs_def digits_val_def digit_val_def py_int_def py_float_def
  strip_def match_header_def maybe_extract_fs_def skip_word_def sample_count_def

lemmas run_defs =
  process_line_def compute_sample_def emit_sample_def fft_step_def mode_gate_def
  decimation_gate_def ma_step_def ema_step_def second_channel_def init_state_def
  apply_env_def env_factor_def compute_step_nm_def deque_of_def deque_append_def
  py_truediv_def default_args_def default_runtime_def Let_def

lemma records_append: "records (xs @ ys) = records xs @ records ys"
  by (induction xs rule: records.induct) simp_all

lemma clamp_bounds: "- 1 \<le> clamp q (- 1) 1 \<and> clamp q (- 1) 1 \<le> 1"
  by (simp add: clamp_def)

lemma angle_total:
  "angle_from_displacement x a =
     Inr (if angle_norm_nm a = 0 then 0
          else arcsin (clamp (x / angle_norm_nm a) (- 1) 1) * angle_corr a * (57296 / 1000))"
  using clamp_bounds [of "x / angle_norm_nm a"]
  by (simp add: angle_from_displacement_def py_truediv_def py_asin_def)

lemma deque_append_nonempty: "0 < m \<Longrightarrow> deque_append b m x \<noteq> []"
  by (simp add: deque_append_def)

lemma ma_step_total:
  "ma_step a buf m x =
     Inr (if ma_window a > 0
          then (let b2 = deque_append (if int m \<noteq> ma_window a then deque_of buf (nat (ma_window a)) else buf)
                            (nat (ma_window a)) x
                in (b2, nat (ma_window a), Some (sum_list b2 / real (length b2))))
          else (buf, m, None))"
proof (cases "ma_window a > 0")
  case False
  then show ?thesis by (simp add: ma_step_def)
next
  case True
  then have pos: "0 < nat (ma_window a)" by simp
  show ?thesis
  proof (cases "int m = ma_window a")
    case True
    then have m: "m = nat (ma_window a)" by simp
    from pos have "deque_append buf (nat (ma_window a)) x \<noteq> []" by (rule deque_append_nonempty)
    with \<open>ma_window a > 0\<close> True m show ?thesis
      by (simp add: ma_step_def py_truediv_def Let_def)
  next
    case False
    from pos have "deque_append (deque_of buf (nat (ma_window a))) (nat (ma_window a)) x \<noteq> []"
      by (rule deque_append_nonempty)
    with \<open>ma_window a > 0\<close> False show ?thesis
      by (simp add: ma_step_def py_truediv_def Let_def)
  qed
qed

lemma compute_sample_total:
  "\<exists>s1 r. compute_sample a s toks D = Inr (s1, r)
     \<and> rec_D r = D
     \<and> rec_deltaD r = (case prevD s of None \<Rightarrow> 0 | Some p \<Rightarrow> D - p)
     \<and> rec_step_nm r = compute_step_nm a * real_of_int (rec_deltaD r)
     \<and> rec_x_nm r = (x_nm s + rec_step_nm r) * straight_mult a
     \<and> rec_fs_hz r = (if fs_hz s \<le> 0 then 1000 else fs_hz s)
     \<and> rec_v_nm_s r = rec_step_nm r * rec_fs_hz r
     \<and> x_nm s1 = rec_x_nm r
     \<and> fs_hz s1 = rec_fs_hz r
     \<and> prevD s1 = Some D
     \<and> emitted s1 = emitted s
     \<and> fft_buf s1 = fft_buf s
     \<and> (ma_buf s1, ma_maxlen s1, rec_x_nm_ma r) = projr (ma_step a (ma_buf s) (ma_maxlen s) (rec_x_nm r))
     \<and> (ema_x s1, rec_x_nm_ema r) = ema_step a (ema_x s) (rec_x_nm r)
     \<and> rec_x_nm_env r = apply_env (rec_x_nm r) a
     \<and> rec_angle_deg r = (if mode a = Angle then Some (projr (angle_from_displacement (rec_x_nm r) a)) else None)"
  by (simp add: compute_sample_def ma_step_total angle_total Let_def split: prod.split)

lemma process_line_sample:
  "sample_count raw = Some D \<Longrightarrow>
   process_line a rt s raw =
     (case compute_sample a s (parse_line_tokens (strip raw)) D of
        Inl e \<Rightarrow> Inl e
      | Inr (s1, r) \<Rightarrow> Inr (emit_sample a rt s1 r))"
  by (auto simp add: sample_count_def process_line_def Let_def split: if_splits)

lemma process_line_skip:
  "sample_count raw = None \<Longrightarrow>
   \<exists>f. process_line a rt s raw = Inr (s\<lparr>fs_hz := f\<rparr>, [])"
proof -
  assume h: "sample_count raw = None"
  have triv: "s = s\<lparr>fs_hz := fs_hz s\<rparr>" by simp
  show ?thesis
  proof (cases "strip raw = []")
    case True
    then have "process_line a rt s raw = Inr (s\<lparr>fs_hz := fs_hz s\<rparr>, [])"
      by (simp add: process_line_def)
    then show ?thesis by blast
  next
    case False
    show ?thesis
    proof (cases "maybe_extract_fs (strip raw) \<noteq> None \<and> maybe_extract_fs (strip raw) \<noteq> Some 0")
      case True
      with False have "process_line a rt s raw = Inr (s\<lparr>fs_hz := the (maybe_extract_fs (strip raw))\<rparr>, [])"
        by (simp add: process_line_def Let_def)
      then show ?thesis by blast
    next
      case F2: False
      with False h have "primary_count (parse_line_tokens (strip raw)) = None"
        by (auto simp add: sample_count_def Let_def split: if_splits)
      with False F2 have "process_line a rt s raw = Inr (s\<lparr>fs_hz := fs_hz s\<rparr>, [])"
        by (auto simp add: process_line_def Let_def)
      then show ?thesis by blast
    qed
  qed
qed

lemma records_fft_step: "records (snd (fft_step a rt s r)) = []"
  by (simp add: fft_step_def Let_def)

lemma emit_sample_records:
  "records (snd (emit_sample a rt s r)) =
     (if mode_gate a r \<and> decimation_gate a (emitted s + 1) then [r] else [])"
  by (simp add: emit_sample_def Let_def records_append split_beta records_fft_step)

lemma emit_sample_emitted:
  "emitted (fst (emit_sample a rt s r)) = (if mode_gate a r then emitted s + 1 else emitted s)"
  by (simp add: emit_sample_def fft_step_def Let_def split_beta)

lemma emit_sample_frame:
  "x_nm (fst (emit_sample a rt s r)) = x_nm s \<and>
   prevD (fst (emit_sample a rt s r)) = prevD s \<and>
   fs_hz (fst (emit_sample a rt s r)) = fs_hz s \<and>
   ema_x (fst (emit_sample a rt s r)) = ema_x s \<and>
   ma_buf (fst (emit_sample a rt s r)) = ma_buf s \<and>
   ma_maxlen (fst (emit_sample a rt s r)) = ma_maxlen s"
  by (simp add: emit_sample_def fft_step_def Let_def split_beta)

lemma process_line_total: "\<exists>s' evs. process_line a rt s raw = Inr (s', evs)"
proof (cases "sample_count raw")
  case None
  then show ?thesis using process_line_skip [of raw a rt s] by blast
next
  case (Some D)
  obtain s1 r where "compute_sample a s (parse_line_tokens (strip raw)) D = Inr (s1, r)"
    using compute_sample_total [of a s "parse_line_tokens (strip raw)" D] by blast
  with process_line_sample [OF Some, of a rt s]
  have "process_line a rt s raw = Inr (fst (emit_sample a rt s1 r), snd (emit_sample a rt s1 r))"
    by simp
  then show ?thesis by blast
qed

lemma run_lines_total: "\<exists>s' evs. run_lines a rt s ls = Inr (s', evs)"
proof (induction ls arbitrary: s)
  case Nil
  show ?case by simp
next
  case (Cons raw rest)
  obtain s1 e1 where p: "process_line a rt s raw = Inr (s1, e1)"
    using process_line_total by blast
  obtain s2 e2 where "run_lines a rt s1 rest = Inr (s2, e2)"
    using Cons.IH by blast
  with p show ?case by simp
qed



lemma div_succ_int:
  assumes d: "(1::int) < d"
  shows "(e + 1) div d = e div d + (if (e + 1) mod d = 0 then 1 else 0)"
proof -
  have lo: "0 \<le> e mod d" and hi: "e mod d < d" using d by simp_all
  have e: "e + 1 = d * (e div d) + (e mod d + 1)" by simp
  show ?thesis
  proof (cases "e mod d + 1 = d")
    case True
    have "e + 1 = d * (e div d) + d" using e unfolding True .
    then have "e + 1 = d * (e div d + 1) + 0" by (simp add: algebra_simps)
    then have "(e + 1) div d = e div d + 1" and "(e + 1) mod d = 0"
      using d int_div_pos_eq [of "e + 1" d "e div d + 1" 0] int_mod_pos_eq [of "e + 1" d "e div d + 1" 0]
      by simp_all
    then show ?thesis by simp
  next
    case False
    with hi have lt: "e mod d + 1 < d" by simp
    from e lo lt have "(e + 1) div d = e div d" and "(e + 1) mod d = e mod d + 1"
      using int_div_pos_eq [of "e + 1" d "e div d" "e mod d + 1"]
            int_mod_pos_eq [of "e + 1" d "e div d" "e mod d + 1"]
      by simp_all
    with lo show ?thesis by simp
  qed
qed
lemma process_line_gate:
  "sample_count raw = Some D \<Longrightarrow>
   \<exists>s' evs r. process_line a rt s raw = Inr (s', evs)
      \<and> rec_deltaD r = (case prevD s of None \<Rightarrow> 0 | Some p \<Rightarrow> D - p)
      \<and> emitted s' = (if mode_gate a r then emitted s + 1 else emitted s)
      \<and> records evs = (if mode_gate a r \<and> decimation_gate a (emitted s + 1) then [r] else [])"
proof -
  assume h: "sample_count raw = Some D"
  obtain s1 r where c: "compute_sample a s (parse_line_tokens (strip raw)) D = Inr (s1, r)"
    and d: "rec_deltaD r = (case prevD s of None \<Rightarrow> 0 | Some p \<Rightarrow> D - p)"
    and em: "emitted s1 = emitted s"
    using compute_sample_total [of a s "parse_line_tokens (strip raw)" D] by blast
  let ?s' = "fst (emit_sample a rt s1 r)" and ?evs = "snd (emit_sample a rt s1 r)"
  have p: "process_line a rt s raw = Inr (?s', ?evs)"
    using process_line_sample [OF h, of a rt s] c by simp
  have e: "emitted ?s' = (if mode_gate a r then emitted s + 1 else emitted s)"
    using em by (simp add: emit_sample_emitted)
  have r: "records ?evs = (if mode_gate a r \<and> decimation_gate a (emitted s + 1) then [r] else [])"
    using em by (simp add: emit_sample_records)
  from p d e r show ?thesis by blast
qed

lemma process_line_count:
  "\<exists>s' evs. process_line a rt s raw = Inr (s', evs)
     \<and> (emitted s' = emitted s \<and> records evs = []
        \<or> emitted s' = emitted s + 1
          \<and> length (records evs) = (if decimation_gate a (emitted s + 1) then 1 else 0))"
proof (cases "sample_count raw")
  case None
  then obtain f where "process_line a rt s raw = Inr (s\<lparr>fs_hz := f\<rparr>, [])"
    using process_line_skip [of raw a rt s] by blast
  then show ?thesis by simp
next
  case (Some D)
  from process_line_gate [OF Some, of a rt s] obtain s' evs r
    where p: "process_line a rt s raw = Inr (s', evs)"
      and e: "emitted s' = (if mode_gate a r then emitted s + 1 else emitted s)"
      and r: "records evs = (if mode_gate a r \<and> decimation_gate a (emitted s + 1) then [r] else [])"
    by blast
  show ?thesis
  proof (cases "mode_gate a r")
    case True
    with p e r show ?thesis by simp
  next
    case False
    with p e r show ?thesis by simp
  qed
qed

lemma run_lines_count:
  "run_lines a rt s ls = Inr (s', evs) \<Longrightarrow>
   emitted s \<le> emitted s'
   \<and> int (length (records evs)) =
       (if decimate a > 1 then emitted s' div decimate a - emitted s div decimate a
        else emitted s' - emitted s)"
proof (induction ls arbitrary: s s' evs)
  case Nil
  then show ?case by simp
next
  case (Cons raw rest)
  obtain s1 e1 where p: "process_line a rt s raw = Inr (s1, e1)"
    and alt: "emitted s1 = emitted s \<and> records e1 = []
        \<or> emitted s1 = emitted s + 1
          \<and> length (records e1) = (if decimation_gate a (emitted s + 1) then 1 else 0)"
    using process_line_count [of a rt s raw] by blast
  obtain s2 e2 where r: "run_lines a rt s1 rest = Inr (s2, e2)"
    using run_lines_total by blast
  from Cons.prems p r have eq: "s' = s2" "evs = e1 @ e2" by simp_all
  from Cons.IH [OF r] have ih1: "emitted s1 \<le> emitted s2"
    and ih2: "int (length (records e2)) =
       (if decimate a > 1 then emitted s2 div decimate a - emitted s1 div decimate a
        else emitted s2 - emitted s1)" by simp_all
  from alt show ?case
  proof
    assume "emitted s1 = emitted s \<and> records e1 = []"
    with ih1 ih2 eq show ?thesis by (simp add: records_append)
  next
    assume b: "emitted s1 = emitted s + 1
          \<and> length (records e1) = (if decimation_gate a (emitted s + 1) then 1 else 0)"
    show ?thesis
    proof (cases "decimate a > 1")
      case True
      from div_succ_int [OF True, of "emitted s"] b ih1 ih2 eq True show ?thesis
        by (simp add: records_append decimation_gate_def)
    next
      case False
      with b ih1 ih2 eq show ?thesis
        by (simp add: records_append decimation_gate_def)
    qed
  qed
qed

lemma deque_append_window:
  "0 < w \<Longrightarrow>
   deque_append (drop (length h - w) h) w x = drop (length (h @ [x]) - w) (h @ [x])"
proof (cases "w \<le> length h")
  case True
  assume w: "0 < w"
  from True have len: "length (drop (length h - w) h) = w" by simp
  from True w have le: "Suc (length h - w) \<le> length h" by simp
  from True have eq: "Suc (length h) - w = Suc (length h - w)" by simp
  from w len have "deque_append (drop (length h - w) h) w x
      = drop (Suc 0) (drop (length h - w) h) @ [x]"
    by (simp add: deque_append_def)
  also have "\<dots> = drop (Suc (length h - w)) h @ [x]" by simp
  also have "\<dots> = drop (length (h @ [x]) - w) (h @ [x])" using le eq by simp
  finally show ?thesis .
next
  case False
  assume w: "0 < w"
  from False w show ?thesis by (simp add: deque_append_def)
qed

lemma process_line_ma:
  assumes w: "ma_window a > 0"
    and m: "ma_maxlen s = nat (ma_window a)"
    and b: "ma_buf s = drop (length h - nat (ma_window a)) h"
    and p: "process_line a rt s raw = Inr (s', evs)"
  shows "ma_maxlen s' = nat (ma_window a)
     \<and> ma_buf s' =
         drop (length (h @ (if sample_count raw = None then [] else [x_nm s'])) - nat (ma_window a))
              (h @ (if sample_count raw = None then [] else [x_nm s']))"
proof (cases "sample_count raw")
  case None
  then obtain f where "process_line a rt s raw = Inr (s\<lparr>fs_hz := f\<rparr>, [])"
    using process_line_skip [of raw a rt s] by blast
  with p have "s' = s\<lparr>fs_hz := f\<rparr>" by simp
  with None m b show ?thesis by simp
next
  case (Some D)
  obtain s1 r where c: "compute_sample a s (parse_line_tokens (strip raw)) D = Inr (s1, r)"
    and xs: "x_nm s1 = rec_x_nm r"
    and ma: "(ma_buf s1, ma_maxlen s1, rec_x_nm_ma r)
               = projr (ma_step a (ma_buf s) (ma_maxlen s) (rec_x_nm r))"
    using compute_sample_total [of a s "parse_line_tokens (strip raw)" D] by blast
  from process_line_sample [OF Some, of a rt s] c p
  have s': "s' = fst (emit_sample a rt s1 r)" by (metis Inr_inject case_prod_conv fst_conv old.sum.simps(6))
  from w have pos: "0 < nat (ma_window a)" by simp
  from ma w m have b1: "ma_buf s1 = deque_append (ma_buf s) (nat (ma_window a)) (rec_x_nm r)"
    and m1: "ma_maxlen s1 = nat (ma_window a)"
    by (simp_all add: ma_step_total Let_def)
  from b1 b deque_append_window [OF pos, of h "rec_x_nm r"]
  have b2: "ma_buf s1 = drop (length (h @ [rec_x_nm r]) - nat (ma_window a)) (h @ [rec_x_nm r])"
    by simp
  from s' emit_sample_frame [of a rt s1 r]
  have "ma_buf s' = ma_buf s1" "ma_maxlen s' = ma_maxlen s1" "x_nm s' = x_nm s1" by simp_all
  with b2 m1 xs Some show ?thesis by simp
qed

lemma run_lines_ma:
  "ma_window a > 0 \<Longrightarrow>
   ma_maxlen s = nat (ma_window a) \<Longrightarrow>
   ma_buf s = drop (length h - nat (ma_window a)) h \<Longrightarrow>
   run_lines a rt s ls = Inr (s', evs) \<Longrightarrow>
   ma_maxlen s' = nat (ma_window a)
   \<and> ma_buf s' = drop (length (h @ x_trace a rt s ls) - nat (ma_window a)) (h @ x_trace a rt s ls)"
proof (induction ls arbitrary: s h s' evs)
  case Nil
  then show ?case by simp
next
  case (Cons raw rest)
  obtain s1 e1 where p: "process_line a rt s raw = Inr (s1, e1)"
    using process_line_total by blast
  obtain s2 e2 where r: "run_lines a rt s1 rest = Inr (s2, e2)"
    using run_lines_total by blast
  from Cons.prems(4) p r have eq: "s' = s2" by simp
  let ?h1 = "h @ (if sample_count raw = None then [] else [x_nm s1])"
  from process_line_ma [OF Cons.prems(1) Cons.prems(2) Cons.prems(3) p]
  have m1: "ma_maxlen s1 = nat (ma_window a)"
    and b1: "ma_buf s1 = drop (length ?h1 - nat (ma_window a)) ?h1" by simp_all
  from Cons.IH [OF Cons.prems(1) m1 b1 r] eq p show ?case by simp
qed

lemma process_line_ma_mean:
  assumes w: "ma_window a > 0" and h: "sample_count raw = Some D"
  shows "\<exists>s1 evs1. process_line a rt s raw = Inr (s1, evs1)
     \<and> ma_buf s1 \<noteq> []
     \<and> list_all (\<lambda>r. rec_x_nm_ma r = Some (sum_list (ma_buf s1) / real (length (ma_buf s1))))
                (records evs1)"
proof -
  obtain s1 r where c: "compute_sample a s (parse_line_tokens (strip raw)) D = Inr (s1, r)"
    and ma: "(ma_buf s1, ma_maxlen s1, rec_x_nm_ma r)
               = projr (ma_step a (ma_buf s) (ma_maxlen s) (rec_x_nm r))"
    using compute_sample_total [of a s "parse_line_tokens (strip raw)" D] by blast
  let ?s' = "fst (emit_sample a rt s1 r)" and ?evs = "snd (emit_sample a rt s1 r)"
  have p: "process_line a rt s raw = Inr (?s', ?evs)"
    using process_line_sample [OF h, of a rt s] c by simp
  from w have pos: "0 < nat (ma_window a)" by simp
  from ma w have b1: "ma_buf s1 =
      deque_append (if int (ma_maxlen s) \<noteq> ma_window a
                    then deque_of (ma_buf s) (nat (ma_window a)) else ma_buf s)
        (nat (ma_window a)) (rec_x_nm r)"
    and v: "rec_x_nm_ma r = Some (sum_list (ma_buf s1) / real (length (ma_buf s1)))"
    by (simp_all add: ma_step_total Let_def)
  from b1 deque_append_nonempty [OF pos] have ne: "ma_buf s1 \<noteq> []" by simp
  from emit_sample_frame [of a rt s1 r] have fr: "ma_buf ?s' = ma_buf s1" by simp
  have l: "list_all (\<lambda>r. rec_x_nm_ma r = Some (sum_list (ma_buf ?s') / real (length (ma_buf ?s'))))
                (records ?evs)"
    using v fr by (simp add: emit_sample_records)
  from ne fr have ne': "ma_buf ?s' \<noteq> []" by simp
  from p ne' l show ?thesis by blast
qed

lemma maybe_extract_fs_Nil: "maybe_extract_fs [] = None"
  by (simp add: maybe_extract_fs_def match_header_def skip_word_def)


subsection \<open>The token scan needs no more fuel than the length of the line\<close>

lemma match_digits_shorter:
  assumes "match_digits neg s1 = Some (t, rest)"
  shows "length rest \<le> length s1"
proof -
  let ?s2 = "dropWhile is_digit s1"
  have l2: "length ?s2 \<le> length s1" by (rule length_dropWhile_le)
  show ?thesis
  proof (cases ?s2)
    case Nil
    with assms have "rest = []" by (simp add: match_digits_def Let_def split: if_splits)
    then show ?thesis by simp
  next
    case (Cons c r)
    have lr: "length (dropWhile is_digit r) \<le> length r" by (rule length_dropWhile_le)
    from assms Cons have "rest = ?s2 \<or> rest = dropWhile is_digit r"
      by (simp add: match_digits_def Let_def split: if_splits)
    with l2 lr Cons show ?thesis by auto
  qed
qed

lemma match_number_shorter:
  assumes "match_number s = Some (t, rest)"
  shows "length rest \<le> length s"
proof (cases s)
  case Nil
  with assms match_digits_shorter [of False s t rest] show ?thesis
    by (simp add: match_number_def)
next
  case (Cons c r)
  show ?thesis
  proof (cases "c = CHR ''-''")
    case True
    with assms Cons have "match_digits True r = Some (t, rest)" by (simp add: match_number_def)
    from match_digits_shorter [OF this] Cons show ?thesis by simp
  next
    case False
    with assms Cons have "match_digits False s = Some (t, rest)" by (simp add: match_number_def)
    from match_digits_shorter [OF this] show ?thesis .
  qed
qed

lemma match_tok_shorter:
  assumes m: "match_tok s = Some (key, t, rest)"
  shows "length rest < length s"
proof -
  let ?s1 = "dropWhile is_space (dropWhile is_alpha s)"
  have a: "length ?s1 \<le> length s"
    using length_dropWhile_le [of is_space "dropWhile is_alpha s"] length_dropWhile_le [of is_alpha s]
    by simp
  show ?thesis
  proof (cases ?s1)
    case Nil
    with m show ?thesis by (simp add: match_tok_def Let_def split: if_splits)
  next
    case (Cons c r)
    with m have mn: "match_number (dropWhile is_space r) = Some (t, rest)"
      by (simp add: match_tok_def Let_def split: if_splits option.splits)
    have "length (dropWhile is_space r) \<le> length r" by (rule length_dropWhile_le)
    with match_number_shorter [OF mn] a Cons show ?thesis by simp
  qed
qed

lemma findall_from_fuel:
  "length s < n \<Longrightarrow> length s < m \<Longrightarrow> findall_from n s = findall_from m s"
proof (induction n arbitrary: s m)
  case 0
  then show ?case by simp
next
  case (Suc n)
  from Suc.prems obtain m' where m: "m = Suc m'" by (cases m) simp_all
  show ?case
  proof (cases s)
    case Nil
    with m show ?thesis by simp
  next
    case (Cons c cs)
    show ?thesis
    proof (cases "match_tok (c # cs)")
      case None
      from Suc.prems Cons m have "length cs < n" "length cs < m'" by simp_all
      from Suc.IH [OF this] None Cons m show ?thesis by simp
    next
      case (Some a)
      obtain key t rest where a: "a = (key, t, rest)" by (cases a) auto
      from Some a have mt: "match_tok (c # cs) = Some (key, t, rest)" by simp
      have "length rest < length (c # cs)" by (rule match_tok_shorter [OF mt])
      with Suc.prems Cons m have "length rest < n" "length rest < m'" by simp_all
      from Suc.IH [OF this] Some a Cons m show ?thesis by simp
    qed
  qed
qed

lemma findall_Cons:
  "findall (c # cs) =
     (case match_tok (c # cs) of
        Some (key, t, rest) \<Rightarrow> (key, t) # findall rest
      | None \<Rightarrow> findall cs)"
proof (cases "match_tok (c # cs)")
  case None
  then show ?thesis by (simp add: findall_def)
next
  case (Some a)
  obtain key t rest where a: "a = (key, t, rest)" by (cases a) auto
  from Some a have mt: "match_tok (c # cs) = Some (key, t, rest)" by simp
  have "length rest < length (c # cs)" by (rule match_tok_shorter [OF mt])
  then have "findall_from (Suc (length cs)) rest = findall_from (Suc (length rest)) rest"
    by (intro findall_from_fuel) simp_all
  with Some a show ?thesis by (simp add: findall_def)
qed

subsection \<open>A header line holds no token\<close>

lemma colon_dropWhile_space:
  assumes "CHR '':'' \<in> set s"
  shows "CHR '':'' \<in> set (dropWhile is_space s)"
proof -
  have "\<not> is_space CHR '':''" by (simp add: is_space_def)
  then have "CHR '':'' \<notin> set (takeWhile is_space s)" using set_takeWhileD by metis
  moreover have "set s = set (takeWhile is_space s) \<union> set (dropWhile is_space s)"
    by (metis set_append takeWhile_dropWhile_id)
  ultimately show ?thesis using assms by simp
qed

lemma colon_dropWhile_digit:
  assumes "CHR '':'' \<in> set s"
  shows "CHR '':'' \<in> set (dropWhile is_digit s)"
proof -
  have "\<not> is_digit CHR '':''" by (simp add: is_digit_def)
  then have "CHR '':'' \<notin> set (takeWhile is_digit s)" using set_takeWhileD by metis
  moreover have "set s = set (takeWhile is_digit s) \<union> set (dropWhile is_digit s)"
    by (metis set_append takeWhile_dropWhile_id)
  ultimately show ?thesis using assms by simp
qed

lemma upper_char_colon: "upper_char c = CHR '':'' \<longleftrightarrow> c = CHR '':''"
  by (simp add: upper_char_def)

lemma colon_skip_word:
  assumes sw: "skip_word w s = Some r" and w: "CHR '':'' \<notin> set (upper w)"
    and c: "CHR '':'' \<in> set s"
  shows "CHR '':'' \<in> set r"
proof -
  from sw have u: "upper (take (length w) s) = upper w" and r: "r = drop (length w) s"
    by (simp_all add: skip_word_def split: if_splits)
  have "CHR '':'' \<notin> set (take (length w) s)"
  proof
    assume "CHR '':'' \<in> set (take (length w) s)"
    then have "upper_char CHR '':'' \<in> set (upper (take (length w) s))"
      unfolding upper_def by (metis image_eqI set_map)
    moreover have "upper_char CHR '':'' = CHR '':''" by (simp add: upper_char_def)
    ultimately show False using u w by simp
  qed
  moreover have "set s = set (take (length w) s) \<union> set (drop (length w) s)"
    by (metis append_take_drop_id set_append)
  ultimately show ?thesis using c r by simp
qed

lemma header_has_no_colon:
  assumes m: "match_header line = Some t"
  shows "CHR '':'' \<notin> set line"
proof
  assume c0: "CHR '':'' \<in> set line"
  from m obtain s1 where a1: "skip_word ''Sample'' (dropWhile is_space line) = Some s1"
    by (cases "skip_word ''Sample'' (dropWhile is_space line)") (simp_all add: match_header_def)
  from m a1 obtain s2 where a2: "skip_word ''Frequency'' (dropWhile is_space s1) = Some s2"
    by (cases "skip_word ''Frequency'' (dropWhile is_space s1)")
       (simp_all add: match_header_def split: if_splits)
  have "dropWhile is_space s2 \<noteq> []"
  proof
    assume e: "dropWhile is_space s2 = []"
    from m a1 a2 show False by (simp add: match_header_def e split: if_splits)
  qed
  then obtain c s3 where a3: "dropWhile is_space s2 = c # s3"
    by (cases "dropWhile is_space s2") auto
  let ?s4 = "dropWhile is_space s3"
  let ?s5 = "dropWhile is_digit ?s4"
  from m a1 a2 a3 have "\<exists>s6 s7. (s6 = ?s5 \<or> (\<exists>r. ?s5 = CHR ''.'' # r \<and> s6 = dropWhile is_digit r))
      \<and> skip_word ''Hz'' (dropWhile is_space s6) = Some s7 \<and> dropWhile is_space s7 = []"
    by (auto simp add: match_header_def Let_def split: if_splits list.splits option.splits)
  then obtain s6 s7 where a6: "s6 = ?s5 \<or> (\<exists>r. ?s5 = CHR ''.'' # r \<and> s6 = dropWhile is_digit r)"
    and a7: "skip_word ''Hz'' (dropWhile is_space s6) = Some s7"
    and a8: "dropWhile is_space s7 = []" by blast
  have c1: "CHR '':'' \<in> set s1"
    using colon_skip_word [OF a1 _ colon_dropWhile_space [OF c0]]
    by (simp add: upper_def upper_char_def)
  have c2: "CHR '':'' \<in> set s2"
    using colon_skip_word [OF a2 _ colon_dropWhile_space [OF c1]]
    by (simp add: upper_def upper_char_def)
  from m a1 a2 a3 have ceq: "c = CHR ''=''"
    by (simp add: match_header_def split: if_splits)
  from colon_dropWhile_space [OF c2] a3 ceq have c3: "CHR '':'' \<in> set s3" by simp
  have c5: "CHR '':'' \<in> set ?s5"
    by (rule colon_dropWhile_digit [OF colon_dropWhile_space [OF c3]])
  from a6 have c6: "CHR '':'' \<in> set s6"
  proof
    assume "s6 = ?s5"
    with c5 show ?thesis by simp
  next
    assume "\<exists>r. ?s5 = CHR ''.'' # r \<and> s6 = dropWhile is_digit r"
    then obtain r where d: "?s5 = CHR ''.'' # r" and s6: "s6 = dropWhile is_digit r" by blast
    from c5 d have "CHR '':'' \<in> set r" by simp
    with s6 show ?thesis by (simp add: colon_dropWhile_digit)
  qed
  have c7: "CHR '':'' \<in> set s7"
    using colon_skip_word [OF a7 _ colon_dropWhile_space [OF c6]]
    by (simp add: upper_def upper_char_def)
  from colon_dropWhile_space [OF c7] a8 show False by simp
qed

lemma match_tok_no_colon:
  assumes "CHR '':'' \<notin> set s"
  shows "match_tok s = None"
proof (cases "dropWhile is_space (dropWhile is_alpha s)")
  case Nil
  show ?thesis by (simp add: match_tok_def Let_def Nil)
next
  case (Cons c r)
  then have "c \<in> set (dropWhile is_space (dropWhile is_alpha s))" by simp
  then have "c \<in> set s" by (metis set_dropWhileD)
  with assms have "c \<noteq> CHR '':''" by auto
  then show ?thesis by (simp add: match_tok_def Let_def Cons)
qed

lemma findall_from_no_colon:
  "CHR '':'' \<notin> set s \<Longrightarrow> findall_from n s = []"
proof (induction n arbitrary: s)
  case 0
  show ?case by simp
next
  case (Suc n)
  show ?case
  proof (cases s)
    case Nil
    then show ?thesis by simp
  next
    case (Cons c cs)
    with Suc.prems have "match_tok (c # cs) = None" by (simp add: match_tok_no_colon)
    moreover from Cons Suc.prems have "CHR '':'' \<notin> set cs" by simp
    ultimately show ?thesis using Cons Suc.IH by simp
  qed
qed

lemma header_has_no_tokens:
  assumes "maybe_extract_fs line = Some f"
  shows "parse_line_tokens line = Map.empty"
proof -
  from assms obtain t where "match_header line = Some t"
    by (auto simp add: maybe_extract_fs_def)
  then have "CHR '':'' \<notin> set line" by (rule header_has_no_colon)
  then have "findall line = []" by (simp add: findall_def findall_from_no_colon)
  then show ?thesis by (simp add: parse_line_tokens_def)
qed

section \<open>The properties\<close>



text \<open>
  C8. A line that is not a frequency header and has neither a \<open>DIFF\<close> nor a \<open>D\<close> token
  writes nothing, leaves the whole state as it was and raises no error.
\<close>

theorem no_primary_count_skips_line:
  "maybe_extract_fs (strip raw) = None \<Longrightarrow>
   parse_line_tokens (strip raw) ''DIFF'' = None \<Longrightarrow>
   parse_line_tokens (strip raw) ''D'' = None \<Longrightarrow>
   process_line a rt s raw = Inr (s, [])"
  by (simp add: process_line_def primary_count_def Let_def)

theorem no_primary_count_skips_line_witness:
  "maybe_extract_fs (strip ''N:7 X:1.5 REF:3'') = None
   \<and> parse_line_tokens (strip ''N:7 X:1.5 REF:3'') ''DIFF'' = None
   \<and> parse_line_tokens (strip ''N:7 X:1.5 REF:3'') ''D'' = None
   \<and> process_line default_args default_runtime (init_state default_args) ''N:7 X:1.5 REF:3''
        = Inr (init_state default_args, [])"
proof -
  have h1: "maybe_extract_fs (strip ''N:7 X:1.5 REF:3'') = None" by (simp add: tok_defs)
  have h2: "parse_line_tokens (strip ''N:7 X:1.5 REF:3'') ''DIFF'' = None" by (simp add: tok_defs)
  have h3: "parse_line_tokens (strip ''N:7 X:1.5 REF:3'') ''D'' = None" by (simp add: tok_defs)
  from no_primary_count_skips_line [OF h1 h2 h3] h1 h2 h3 show ?thesis by simp
qed

text \<open>
  C9. The angle of a cumulative displacement \<open>x\<close>: exactly 0 when the normalization length is
  0, with no division evaluated (the function never raises), and otherwise
  \<open>asin(clamp(x / norm, -1, 1)) * corr * 57.296\<close>; in angle mode this is the angle of the
  record, computed from the record's cumulative displacement.
\<close>

theorem angle_norm_zero_or_arcsin:
  "angle_from_displacement x a =
     Inr (if angle_norm_nm a = 0 then 0
          else arcsin (clamp (x / angle_norm_nm a) (- 1) 1) * angle_corr a * (57296 / 1000))
   \<and> (mode a = Angle \<longrightarrow>
        (\<exists>s1 r. compute_sample a s toks D = Inr (s1, r)
           \<and> rec_angle_deg r =
               Some (if angle_norm_nm a = 0 then 0
                     else arcsin (clamp (rec_x_nm r / angle_norm_nm a) (- 1) 1)
                            * angle_corr a * (57296 / 1000))))"
proof -
  obtain s1 r where c: "compute_sample a s toks D = Inr (s1, r)"
    and ang: "rec_angle_deg r =
        (if mode a = Angle then Some (projr (angle_from_displacement (rec_x_nm r) a)) else None)"
    using compute_sample_total [of a s toks D] by blast
  from c ang show ?thesis by (simp add: angle_total)
qed

theorem angle_norm_zero_or_arcsin_witness:
  "mode (default_args\<lparr>mode := Angle, angle_norm_nm := 0\<rparr>) = Angle
   \<and> angle_from_displacement 5 (default_args\<lparr>mode := Angle, angle_norm_nm := 0\<rparr>) = Inr 0
   \<and> angle_from_displacement 7 (default_args\<lparr>mode := Angle, angle_norm_nm := 2, angle_corr := 3\<rparr>)
        = Inr (arcsin 1 * 3 * (57296 / 1000))
   \<and> (\<exists>s1 r. compute_sample (default_args\<lparr>mode := Angle, angle_norm_nm := 0\<rparr>)
                 (init_state default_args) Map.empty 4 = Inr (s1, r)
              \<and> rec_angle_deg r = Some 0)"
  using angle_norm_zero_or_arcsin
          [of 5 "default_args\<lparr>mode := Angle, angle_norm_nm := 0\<rparr>" "init_state default_args" Map.empty 4]
        angle_norm_zero_or_arcsin
          [of 7 "default_args\<lparr>mode := Angle, angle_norm_nm := 2, angle_corr := 3\<rparr>" "init_state default_args" Map.empty 4]
  by (simp add: default_args_def clamp_def)



text \<open>
  C6. The accepted-sample counter goes up by one exactly for the samples that pass the mode
  gate (a line without a sample leaves it alone), before the decimation gate is evaluated; a
  counted sample is written iff the decimation factor is at most 1 or the new counter value
  is a multiple of it. So a run from the initial state writes \<open>counter div d\<close> records when
  \<open>d > 1\<close> and \<open>counter\<close> records otherwise: 2 records for 7 counted samples and
  \<open>d = 3\<close>.
\<close>

theorem counter_before_decimation:
  "(sample_count raw = None \<longrightarrow>
      (\<exists>s' evs. process_line a rt s raw = Inr (s', evs)
         \<and> emitted s' = emitted s \<and> records evs = []))
   \<and> (sample_count raw = Some D \<longrightarrow>
      (\<exists>s' evs r. process_line a rt s raw = Inr (s', evs)
         \<and> rec_deltaD r = (case prevD s of None \<Rightarrow> 0 | Some p \<Rightarrow> D - p)
         \<and> emitted s' = (if mode_gate a r then emitted s + 1 else emitted s)
         \<and> records evs =
             (if mode_gate a r \<and> (decimate a \<le> 1 \<or> emitted s' mod decimate a = 0)
              then [r] else [])))
   \<and> (run_lines a rt (init_state a) ls = Inr (sN, evsN) \<longrightarrow>
        int (length (records evsN)) =
          (if decimate a > 1 then emitted sN div decimate a else emitted sN))
   \<and> (run_lines a rt (init_state a) ls = Inr (sN, evsN) \<and> decimate a = 3 \<and> emitted sN = 7 \<longrightarrow>
        length (records evsN) = 2)"
proof -
  have none: "sample_count raw = None \<longrightarrow>
      (\<exists>s' evs. process_line a rt s raw = Inr (s', evs)
         \<and> emitted s' = emitted s \<and> records evs = [])"
  proof
    assume "sample_count raw = None"
    then obtain f where "process_line a rt s raw = Inr (s\<lparr>fs_hz := f\<rparr>, [])"
      using process_line_skip [of raw a rt s] by blast
    then show "\<exists>s' evs. process_line a rt s raw = Inr (s', evs)
         \<and> emitted s' = emitted s \<and> records evs = []" by simp
  qed
  have some: "sample_count raw = Some D \<longrightarrow>
      (\<exists>s' evs r. process_line a rt s raw = Inr (s', evs)
         \<and> rec_deltaD r = (case prevD s of None \<Rightarrow> 0 | Some p \<Rightarrow> D - p)
         \<and> emitted s' = (if mode_gate a r then emitted s + 1 else emitted s)
         \<and> records evs =
             (if mode_gate a r \<and> (decimate a \<le> 1 \<or> emitted s' mod decimate a = 0)
              then [r] else []))"
  proof
    assume h: "sample_count raw = Some D"
    from process_line_gate [OF h, of a rt s] obtain s' evs r
      where p: "process_line a rt s raw = Inr (s', evs)"
        and d: "rec_deltaD r = (case prevD s of None \<Rightarrow> 0 | Some p \<Rightarrow> D - p)"
        and e: "emitted s' = (if mode_gate a r then emitted s + 1 else emitted s)"
        and r: "records evs = (if mode_gate a r \<and> decimation_gate a (emitted s + 1) then [r] else [])"
      by blast
    from e r have "records evs =
             (if mode_gate a r \<and> (decimate a \<le> 1 \<or> emitted s' mod decimate a = 0)
              then [r] else [])"
      by (auto simp add: decimation_gate_def)
    with p d e show "\<exists>s' evs r. process_line a rt s raw = Inr (s', evs)
         \<and> rec_deltaD r = (case prevD s of None \<Rightarrow> 0 | Some p \<Rightarrow> D - p)
         \<and> emitted s' = (if mode_gate a r then emitted s + 1 else emitted s)
         \<and> records evs =
             (if mode_gate a r \<and> (decimate a \<le> 1 \<or> emitted s' mod decimate a = 0)
              then [r] else [])" by blast
  qed
  have run: "int (length (records evsN)) =
          (if decimate a > 1 then emitted sN div decimate a else emitted sN)"
    if "run_lines a rt (init_state a) ls = Inr (sN, evsN)"
    using run_lines_count [OF that] by (simp add: init_state_def)
  have seven: "length (records evsN) = 2"
    if "run_lines a rt (init_state a) ls = Inr (sN, evsN) \<and> decimate a = 3 \<and> emitted sN = 7"
  proof -
    from that run have "int (length (records evsN)) = 7 div 3" by simp
    then show ?thesis by simp
  qed
  from none some run seven show ?thesis by blast
qed

theorem counter_before_decimation_witness:
  "sample_count ''N:9'' = None
   \<and> sample_count ''D:41 N:10'' = Some 41
   \<and> decimate onstep3 = 3
   \<and> (\<exists>s' evs. process_line onstep3 default_runtime (init_state onstep3) ''N:9'' = Inr (s', evs)
         \<and> emitted s' = 0 \<and> records evs = [])
   \<and> (\<exists>s' evs. process_line onstep3 default_runtime
                   ((init_state onstep3)\<lparr>prevD := Some 40, emitted := 5\<rparr>) ''D:41 N:10''
                 = Inr (s', evs)
         \<and> emitted s' = 6 \<and> length (records evs) = 1)
   \<and> (\<exists>sN evsN. run_lines onstep3 default_runtime (init_state onstep3)
                   [''D:0'', ''D:1'', ''D:2'', ''D:3'', ''D:4'', ''D:5'', ''D:6'', ''D:7'']
                 = Inr (sN, evsN)
         \<and> emitted sN = 7 \<and> length (records evsN) = 2)"
proof -
  let ?ls = "[''D:0'', ''D:1'', ''D:2'', ''D:3'', ''D:4'', ''D:5'', ''D:6'', ''D:7'']"
  let ?s5 = "(init_state onstep3)\<lparr>prevD := Some 40, emitted := 5\<rparr>"
  have h1: "sample_count ''N:9'' = None" by (simp add: tok_defs)
  have h2: "sample_count ''D:41 N:10'' = Some 41" by (simp add: tok_defs)
  have h3: "decimate onstep3 = 3" by (simp add: onstep3_def default_args_def)
  have ev: "\<exists>sN evsN. run_lines onstep3 default_runtime (init_state onstep3) ?ls = Inr (sN, evsN)
              \<and> emitted sN = 7"
    by (simp add: tok_defs run_defs onstep3_def)
  then obtain sN evsN
    where run: "run_lines onstep3 default_runtime (init_state onstep3) ?ls = Inr (sN, evsN)"
      and e7: "emitted sN = 7" by blast
  have a: "\<exists>s' evs. process_line onstep3 default_runtime (init_state onstep3) ''N:9'' = Inr (s', evs)
         \<and> emitted s' = 0 \<and> records evs = []"
    using h1 counter_before_decimation
            [of "''N:9''" onstep3 default_runtime "init_state onstep3" 0 "[]" "init_state onstep3" "[]"]
    by (simp add: init_state_def)
  have b: "\<exists>s' evs. process_line onstep3 default_runtime ?s5 ''D:41 N:10'' = Inr (s', evs)
         \<and> emitted s' = 6 \<and> length (records evs) = 1"
    using h2 h3 counter_before_decimation
            [of "''D:41 N:10''" onstep3 default_runtime ?s5 41 "[]" "init_state onstep3" "[]"]
    by (auto simp add: mode_gate_def onstep3_def default_args_def)
  have c: "length (records evsN) = 2"
    using run e7 h3 counter_before_decimation
            [of "''N:9''" onstep3 default_runtime "init_state onstep3" 0 ?ls sN evsN]
    by simp
  from h1 h2 h3 a b c run e7 show ?thesis by blast
qed

text \<open>
  C7. With the moving average enabled (window \<open>w > 0\<close>), after any run from the initial state
  the history holds exactly the last \<open>min n w\<close> of the \<open>n\<close> cumulative displacements computed
  so far, oldest first, so its length never exceeds \<open>w\<close>; and after every processed sample
  the history is not empty and the moving average reported for the sample is the arithmetic
  mean of the history.
\<close>

theorem moving_average_window:
  "ma_window a > 0 \<longrightarrow>
     (run_lines a rt (init_state a) ls = Inr (s', evs) \<longrightarrow>
        ma_buf s' = drop (length (x_trace a rt (init_state a) ls) - nat (ma_window a))
                         (x_trace a rt (init_state a) ls)
        \<and> length (ma_buf s') = min (length (x_trace a rt (init_state a) ls)) (nat (ma_window a))
        \<and> int (length (ma_buf s')) \<le> ma_window a)
     \<and> (sample_count raw = Some D \<longrightarrow>
          (\<exists>s1 evs1. process_line a rt s raw = Inr (s1, evs1)
             \<and> ma_buf s1 \<noteq> []
             \<and> list_all (\<lambda>r. rec_x_nm_ma r
                                = Some (sum_list (ma_buf s1) / real (length (ma_buf s1))))
                        (records evs1)))"
proof (intro impI conjI)
  assume w: "ma_window a > 0"
  assume run: "run_lines a rt (init_state a) ls = Inr (s', evs)"
  have m0: "ma_maxlen (init_state a) = nat (ma_window a)" using w by (simp add: init_state_def)
  have b0: "ma_buf (init_state a) = drop (length ([]::real list) - nat (ma_window a)) []"
    by (simp add: init_state_def)
  from run_lines_ma [OF w m0 b0 run]
  show b: "ma_buf s' = drop (length (x_trace a rt (init_state a) ls) - nat (ma_window a))
                         (x_trace a rt (init_state a) ls)" by simp
  then show l: "length (ma_buf s') = min (length (x_trace a rt (init_state a) ls)) (nat (ma_window a))"
    by simp
  from l w show "int (length (ma_buf s')) \<le> ma_window a" by simp
next
  assume w: "ma_window a > 0" and h: "sample_count raw = Some D"
  from process_line_ma_mean [OF w h, of rt s]
  show "\<exists>s1 evs1. process_line a rt s raw = Inr (s1, evs1)
             \<and> ma_buf s1 \<noteq> []
             \<and> list_all (\<lambda>r. rec_x_nm_ma r
                                = Some (sum_list (ma_buf s1) / real (length (ma_buf s1))))
                        (records evs1)" .
qed

theorem moving_average_window_witness:
  "ma_window ma3 > 0
   \<and> sample_count ''D:6'' = Some 6
   \<and> x_trace ma3 default_runtime (init_state ma3) [''D:0'', ''D:2'', ''D:4'', ''D:6''] = [2, 4, 6, 8]
   \<and> (\<exists>s' evs. run_lines ma3 default_runtime (init_state ma3) [''D:0'', ''D:2'', ''D:4'', ''D:6'']
                   = Inr (s', evs)
         \<and> ma_buf s' = [4, 6, 8]
         \<and> map rec_x_nm_ma (records evs) = [Some 2, Some 3, Some 4, Some 6])
   \<and> (\<exists>s1 evs1. process_line ma3 default_runtime
                    ((init_state ma3)\<lparr>x_nm := 6, prevD := Some 4, ma_buf := [2, 4, 6]\<rparr>) ''D:6''
                   = Inr (s1, evs1)
         \<and> ma_buf s1 = [4, 6, 8]
         \<and> list_all (\<lambda>r. rec_x_nm_ma r = Some 6) (records evs1))"
proof -
  let ?ls = "[''D:0'', ''D:2'', ''D:4'', ''D:6'']"
  let ?s3 = "(init_state ma3)\<lparr>x_nm := 6, prevD := Some 4, ma_buf := [2, 4, 6]\<rparr>"
  have h1: "ma_window ma3 > 0" by (simp add: ma3_def default_args_def)
  have h2: "sample_count ''D:6'' = Some 6" by (simp add: tok_defs)
  have tr: "x_trace ma3 default_runtime (init_state ma3) ?ls = [2, 4, 6, 8]"
    by (simp add: tok_defs run_defs ma3_def)
  have ev: "\<exists>s' evs. run_lines ma3 default_runtime (init_state ma3) ?ls = Inr (s', evs)
              \<and> map rec_x_nm_ma (records evs) = [Some 2, Some 3, Some 4, Some 6]"
    by (simp add: tok_defs run_defs ma3_def)
  then obtain s' evs
    where run: "run_lines ma3 default_runtime (init_state ma3) ?ls = Inr (s', evs)"
      and mas: "map rec_x_nm_ma (records evs) = [Some 2, Some 3, Some 4, Some 6]" by auto
  have w3: "nat (ma_window ma3) = Suc (Suc (Suc 0))" by (simp add: ma3_def default_args_def)
  have buf: "ma_buf s' = [4, 6, 8]"
    using h1 run tr w3 moving_average_window [of ma3 default_runtime ?ls s' evs "''D:6''" 6 ?s3]
    by simp
  have p: "process_line ma3 default_runtime ?s3 ''D:6''
             = Inr (fst (projr (process_line ma3 default_runtime ?s3 ''D:6'')),
                    snd (projr (process_line ma3 default_runtime ?s3 ''D:6'')))"
    using process_line_total [of ma3 default_runtime ?s3 "''D:6''"] by auto
  have b3: "ma_buf (fst (projr (process_line ma3 default_runtime ?s3 ''D:6''))) = [4, 6, 8]"
    by (simp add: tok_defs run_defs ma3_def)
  have step: "\<exists>s1 evs1. process_line ma3 default_runtime ?s3 ''D:6'' = Inr (s1, evs1)
         \<and> ma_buf s1 = [4, 6, 8]
         \<and> list_all (\<lambda>r. rec_x_nm_ma r = Some 6) (records evs1)"
    using h1 h2 p b3 moving_average_window [of ma3 default_runtime ?ls s' evs "''D:6''" 6 ?s3]
    by auto
  from run buf mas
  have whole: "\<exists>s' evs. run_lines ma3 default_runtime (init_state ma3) ?ls = Inr (s', evs)
         \<and> ma_buf s' = [4, 6, 8]
         \<and> map rec_x_nm_ma (records evs) = [Some 2, Some 3, Some 4, Some 6]" by iprover
  from h1 h2 tr whole step show ?thesis by iprover
qed



text \<open>
  C3 fails for a header whose number is 0. \<open>Sample Frequency = 0 Hz\<close> is matched by the
  pattern and \<open>maybe_extract_fs\<close> returns 0.0, but \<open>if fs_found\<close> is false for that value:
  a current frequency of 500 Hz stays 500 Hz.
\<close>

theorem header_zero_keeps_frequency:
  "maybe_extract_fs (strip ''Sample Frequency = 0 Hz'') = Some 0
   \<and> process_line default_args default_runtime
        ((init_state default_args)\<lparr>fs_hz := 500\<rparr>) ''Sample Frequency = 0 Hz''
       = Inr ((init_state default_args)\<lparr>fs_hz := 500\<rparr>, [])
   \<and> fs_hz ((init_state default_args)\<lparr>fs_hz := 500\<rparr>) \<noteq> 0"
  by (simp add: tok_defs process_line_def Let_def)

text \<open>
  C3, amended. Every header line whose number is not zero overwrites the current frequency
  with that number, whatever the configured override, writes nothing and changes nothing
  else; and every header line, zero or not, holds no data token and yields no sample.
\<close>

theorem nonzero_header_overwrites_frequency:
  "(maybe_extract_fs (strip raw) = Some f \<and> f \<noteq> 0 \<longrightarrow>
      process_line a rt s raw = Inr (s\<lparr>fs_hz := f\<rparr>, []))
   \<and> (maybe_extract_fs (strip raw) = Some f \<longrightarrow>
        parse_line_tokens (strip raw) = Map.empty
        \<and> sample_count raw = None
        \<and> (\<exists>g. process_line a rt s raw = Inr (s\<lparr>fs_hz := g\<rparr>, [])))"
proof (intro conjI impI)
  assume h: "maybe_extract_fs (strip raw) = Some f \<and> f \<noteq> 0"
  then have "strip raw \<noteq> []" using maybe_extract_fs_Nil by auto
  with h show "process_line a rt s raw = Inr (s\<lparr>fs_hz := f\<rparr>, [])"
    by (simp add: process_line_def Let_def)
next
  assume h: "maybe_extract_fs (strip raw) = Some f"
  then show e: "parse_line_tokens (strip raw) = Map.empty" by (rule header_has_no_tokens)
  then show n: "sample_count raw = None"
    by (simp add: sample_count_def primary_count_def Let_def)
  then show "\<exists>g. process_line a rt s raw = Inr (s\<lparr>fs_hz := g\<rparr>, [])"
    by (rule process_line_skip)
qed

theorem nonzero_header_overwrites_frequency_witness:
  "maybe_extract_fs (strip ''  sample   FREQUENCY=12.50hz '') = Some (25 / 2)
   \<and> (25 / 2 :: real) \<noteq> 0
   \<and> process_line (default_args\<lparr>fs := 500\<rparr>) default_runtime
        (init_state (default_args\<lparr>fs := 500\<rparr>)) ''  sample   FREQUENCY=12.50hz ''
       = Inr ((init_state (default_args\<lparr>fs := 500\<rparr>))\<lparr>fs_hz := 25 / 2\<rparr>, [])
   \<and> parse_line_tokens (strip ''  sample   FREQUENCY=12.50hz '') = Map.empty
   \<and> sample_count ''  sample   FREQUENCY=12.50hz '' = None"
proof -
  have h: "maybe_extract_fs (strip ''  sample   FREQUENCY=12.50hz '') = Some (25 / 2)"
    by (simp add: tok_defs)
  show ?thesis
    using h nonzero_header_overwrites_frequency
      [of "''  sample   FREQUENCY=12.50hz ''" "25 / 2" "default_args\<lparr>fs := 500\<rparr>"
          default_runtime "init_state (default_args\<lparr>fs := 500\<rparr>)"]
    by simp
qed

text \<open>
  C1 at a concrete input. With window length 2, trigger interval 2 and \<open>numpy\<close> available, the
  first sample of a run passes both gates of the emission filter (its record is written, the
  counter is 1), but its value is not appended to the spectral buffer: the append sits under
  \<open>emitted % args.fft_every == 0\<close>.
\<close>

theorem spectral_buffer_skips_first_sample:
  "0 < fft_len fft22 \<and> 0 < fft_every fft22 \<and> numpy_ok default_runtime
   \<and> length (records (snd (projr (process_line fft22 default_runtime (init_state fft22) ''D:5 N:1'')))) = 1
   \<and> emitted (fst (projr (process_line fft22 default_runtime (init_state fft22) ''D:5 N:1''))) = 1
   \<and> fft_buf (fst (projr (process_line fft22 default_runtime (init_state fft22) ''D:5 N:1''))) = []"
  by (simp add: tok_defs run_defs fft22_def)

text \<open>
  C2 at a concrete input. With \<open>--log run.csv\<close> the run ends in \<open>NameError\<close> at
  \<open>os.path.exists\<close>, before the log is opened and before any line is read: the module never
  imports \<open>os\<close>.
\<close>

theorem log_setup_raises_name_error:
  "main (default_args\<lparr>log_path := Some ''run.csv''\<rparr>) True [] [''D:1 N:1'', ''D:2 N:2'']
     = Inl (NameError ''os'')"
  by (simp add: main_def setup_log_def lookup_global_def module_globals_def default_args_def)

end
